theory Spec2Isabelle
  imports
    Main
    "HOL-Library.Word"
    "HOL-Library.Finite_Map"
    "HOL-Library.Char_ord"
    "HOL-Library.List_Lexorder"
begin

section \<open>The metrics package: instruments, registry, snapshots\<close>

text \<open>
  A sequential model of package \<open>metrics\<close> (phase1/01-metrics-system): the sentinel
  errors, the \<open>Counter\<close> and \<open>Gauge\<close> instruments, the \<open>Metric\<close> interface and the
  \<open>Registry\<close>. Instruments live in a store and are referred to by pointers, so that
  a registry entry, a caller's reference and a snapshot entry can be told apart.
  The \<open>sync.RWMutex\<close> of the registry and the atomicity of the \<open>go.uber.org/atomic\<close>
  cells are not modelled: every method is taken as one indivisible step.
\<close>

subsection \<open>Machine values\<close>

type_synonym addr = nat

text \<open>A Go pointer: \<open>None\<close> is the nil pointer.\<close>

type_synonym ptr = "addr option"

type_synonym int64 = "64 word"

text \<open>
  A \<open>float64\<close> is carried as its IEEE-754 bit pattern, which is what
  \<open>atomic.Float64\<close> stores. Floating-point addition is not interpreted: the gauge
  operations that add take it as the parameter \<open>fadd\<close>.
\<close>

type_synonym float64 = "64 word"

definition float64_zero :: float64 where
  "float64_zero = 0"

definition float64_one :: float64 where
  "float64_one = 0x3FF0000000000000"

definition float64_minus_one :: float64 where
  "float64_minus_one = 0xBFF0000000000000"

text \<open>The \<open>interface{}\<close> returned by \<open>Value()\<close>: a dynamic type tag and a payload.\<close>

datatype any = Int64 int64 | Float64 float64

subsection \<open>errors.go\<close>

text \<open>
  An error made by \<open>errors.New\<close> or by \<open>fmt.Errorf\<close> without \<open>%w\<close> is a message; one
  made by \<open>fmt.Errorf\<close> with \<open>%w\<close> is a message and the error it wraps.
\<close>

datatype error = ErrorString string | WrapError string error

definition ErrDuplicateMetric :: error where
  "ErrDuplicateMetric = ErrorString ''metric with this name already exists''"

definition ErrMetricNotFound :: error where
  "ErrMetricNotFound = ErrorString ''metric not found''"

definition ErrInvalidMetricName :: error where
  "ErrInvalidMetricName = ErrorString ''metric name cannot be empty''"

fun Error_text :: "error \<Rightarrow> string" where
  "Error_text (ErrorString s) = s"
| "Error_text (WrapError s e) = s"

text \<open>\<open>fmt.Errorf("%w: %s", err, name)\<close>\<close>

definition Errorf_w_s :: "error \<Rightarrow> string \<Rightarrow> error" where
  "Errorf_w_s err name = WrapError (Error_text err @ '': '' @ name) err"

text \<open>\<open>errors.Is\<close>: the error itself or one down its chain of wrapped errors.\<close>

fun errors_Is :: "error \<Rightarrow> error \<Rightarrow> bool" where
  "errors_Is (ErrorString s) target = (ErrorString s = target)"
| "errors_Is (WrapError s e) target = (WrapError s e = target \<or> errors_Is e target)"

subsection \<open>metrics.go\<close>

type_synonym MetricType = int

definition TypeCounter :: MetricType where
  "TypeCounter = 0 + 1"

definition TypeGauge :: MetricType where
  "TypeGauge = 1 + 1"

definition MetricType_String :: "MetricType \<Rightarrow> string" where
  "MetricType_String t =
     (if t = TypeCounter then ''counter''
      else if t = TypeGauge then ''gauge''
      else ''unknown'')"

text \<open>
  A value of the interface type \<open>Metric\<close>: the nil interface, or a dynamic type with a
  pointer, which may itself be nil (\<open>Metric((*Counter)(nil))\<close> is such a value and is
  not equal to \<open>nil\<close>). Only the two implementations of this package are modelled.
\<close>

datatype Metric = NilMetric | CounterPtr ptr | GaugePtr ptr

subsection \<open>counter.go\<close>

record Counter =
  name :: string
  "value" :: int64

definition NewCounter :: "string \<Rightarrow> Counter" where
  "NewCounter n = \<lparr>name = n, value = 0\<rparr>"

definition Counter_Name :: "Counter \<Rightarrow> string" where
  "Counter_Name c = Counter.name c"

definition Counter_Type :: "Counter \<Rightarrow> MetricType" where
  "Counter_Type c = TypeCounter"

definition Counter_Value :: "Counter \<Rightarrow> any" where
  "Counter_Value c = Int64 (Counter.value c)"

definition Counter_Inc :: "Counter \<Rightarrow> Counter" where
  "Counter_Inc c = c\<lparr>Counter.value := Counter.value c + 1\<rparr>"

definition Counter_Add :: "Counter \<Rightarrow> int64 \<Rightarrow> Counter" where
  "Counter_Add c delta =
     (let delta = (if delta <s 0 then 0 else delta)
      in c\<lparr>Counter.value := Counter.value c + delta\<rparr>)"

definition Counter_Load :: "Counter \<Rightarrow> int64" where
  "Counter_Load c = Counter.value c"

subsection \<open>gauge.go\<close>

record Gauge =
  name :: string
  "value" :: float64

definition NewGauge :: "string \<Rightarrow> Gauge" where
  "NewGauge n = \<lparr>name = n, value = float64_zero\<rparr>"

definition Gauge_Name :: "Gauge \<Rightarrow> string" where
  "Gauge_Name g = Gauge.name g"

definition Gauge_Type :: "Gauge \<Rightarrow> MetricType" where
  "Gauge_Type g = TypeGauge"

definition Gauge_Value :: "Gauge \<Rightarrow> any" where
  "Gauge_Value g = Float64 (Gauge.value g)"

definition Gauge_Set :: "Gauge \<Rightarrow> float64 \<Rightarrow> Gauge" where
  "Gauge_Set g v = g\<lparr>Gauge.value := v\<rparr>"

definition Gauge_Inc :: "(float64 \<Rightarrow> float64 \<Rightarrow> float64) \<Rightarrow> Gauge \<Rightarrow> Gauge" where
  "Gauge_Inc fadd g = g\<lparr>Gauge.value := fadd (Gauge.value g) float64_one\<rparr>"

definition Gauge_Dec :: "(float64 \<Rightarrow> float64 \<Rightarrow> float64) \<Rightarrow> Gauge \<Rightarrow> Gauge" where
  "Gauge_Dec fadd g = g\<lparr>Gauge.value := fadd (Gauge.value g) float64_minus_one\<rparr>"

definition Gauge_Add :: "(float64 \<Rightarrow> float64 \<Rightarrow> float64) \<Rightarrow> Gauge \<Rightarrow> float64 \<Rightarrow> Gauge" where
  "Gauge_Add fadd g delta = g\<lparr>Gauge.value := fadd (Gauge.value g) delta\<rparr>"

definition Gauge_Load :: "Gauge \<Rightarrow> float64" where
  "Gauge_Load g = Gauge.value g"

subsection \<open>The store\<close>

text \<open>
  The heap objects of the package: the counters, the gauges and the
  \<open>map[string]interface{}\<close> objects handed out by \<open>Snapshot\<close>. Allocation takes the
  address \<open>next_addr\<close>. A method called through a nil pointer or a nil interface
  panics: the result \<open>None\<close>.
\<close>

record store =
  counters :: "addr \<rightharpoonup> Counter"
  gauges :: "addr \<rightharpoonup> Gauge"
  snapshots :: "addr \<rightharpoonup> (string, any) fmap"
  next_addr :: addr

definition empty_store :: store where
  "empty_store = \<lparr>counters = Map.empty, gauges = Map.empty, snapshots = Map.empty, next_addr = 0\<rparr>"

definition alloc_Counter :: "store \<Rightarrow> Counter \<Rightarrow> store \<times> ptr" where
  "alloc_Counter s c =
     (s\<lparr>counters := (counters s)(next_addr s \<mapsto> c), next_addr := Suc (next_addr s)\<rparr>,
      Some (next_addr s))"

definition alloc_Gauge :: "store \<Rightarrow> Gauge \<Rightarrow> store \<times> ptr" where
  "alloc_Gauge s g =
     (s\<lparr>gauges := (gauges s)(next_addr s \<mapsto> g), next_addr := Suc (next_addr s)\<rparr>,
      Some (next_addr s))"

definition alloc_snapshot :: "store \<Rightarrow> (string, any) fmap \<Rightarrow> store \<times> ptr" where
  "alloc_snapshot s m =
     (s\<lparr>snapshots := (snapshots s)(next_addr s \<mapsto> m), next_addr := Suc (next_addr s)\<rparr>,
      Some (next_addr s))"

definition deref_Counter :: "store \<Rightarrow> ptr \<Rightarrow> Counter option" where
  "deref_Counter s p = (case p of None \<Rightarrow> None | Some a \<Rightarrow> counters s a)"

definition deref_Gauge :: "store \<Rightarrow> ptr \<Rightarrow> Gauge option" where
  "deref_Gauge s p = (case p of None \<Rightarrow> None | Some a \<Rightarrow> gauges s a)"

text \<open>A mutating method called through a pointer: the object is updated in place.\<close>

definition update_Counter :: "store \<Rightarrow> ptr \<Rightarrow> (Counter \<Rightarrow> Counter) \<Rightarrow> store option" where
  "update_Counter s p f =
     (case p of None \<Rightarrow> None
      | Some a \<Rightarrow>
          (case counters s a of None \<Rightarrow> None
           | Some c \<Rightarrow> Some (s\<lparr>counters := (counters s)(a \<mapsto> f c)\<rparr>)))"

definition update_Gauge :: "store \<Rightarrow> ptr \<Rightarrow> (Gauge \<Rightarrow> Gauge) \<Rightarrow> store option" where
  "update_Gauge s p f =
     (case p of None \<Rightarrow> None
      | Some a \<Rightarrow>
          (case gauges s a of None \<Rightarrow> None
           | Some g \<Rightarrow> Some (s\<lparr>gauges := (gauges s)(a \<mapsto> f g)\<rparr>)))"

text \<open>The methods of the interface, dispatched on the dynamic type.\<close>

fun Metric_Name :: "store \<Rightarrow> Metric \<Rightarrow> string option" where
  "Metric_Name s NilMetric = None"
| "Metric_Name s (CounterPtr p) = map_option Counter_Name (deref_Counter s p)"
| "Metric_Name s (GaugePtr p) = map_option Gauge_Name (deref_Gauge s p)"

fun Metric_Value :: "store \<Rightarrow> Metric \<Rightarrow> any option" where
  "Metric_Value s NilMetric = None"
| "Metric_Value s (CounterPtr p) = map_option Counter_Value (deref_Counter s p)"
| "Metric_Value s (GaugePtr p) = map_option Gauge_Value (deref_Gauge s p)"

subsection \<open>registry.go\<close>

text \<open>The field \<open>metrics\<close> is a Go map: \<open>None\<close> is the nil map of the zero value.\<close>

record Registry =
  metrics :: "(string, Metric) fmap option"

definition zero_Registry :: Registry where
  "zero_Registry = \<lparr>metrics = None\<rparr>"

text \<open>The capacity is a hint to \<open>make\<close> and has no effect on the contents.\<close>

definition NewRegistry :: "int \<Rightarrow> Registry" where
  "NewRegistry capacity =
     (let capacity = (if capacity \<le> 0 then 16 else capacity)
      in \<lparr>metrics = Some fmempty\<rparr>)"

text \<open>
  \<open>Register\<close> returns the registry after the call and the error (\<open>None\<close> is Go's nil
  error); the outer \<open>None\<close> is a panic. The checks come in the order of the source:
  the nil interface, the empty name (\<open>metric.Name()\<close> is called on whatever passed the
  first check), the allocation of the map on first use, the duplicate. An assignment
  into a nil map would panic; after the allocation that branch is never taken.
\<close>

definition Register :: "store \<Rightarrow> Registry \<Rightarrow> Metric \<Rightarrow> (Registry \<times> error option) option" where
  "Register s r metric =
     (if metric = NilMetric then Some (r, Some (ErrorString ''cannot register nil metric''))
      else
        (case Metric_Name s metric of
           None \<Rightarrow> None
         | Some n \<Rightarrow>
             if n = [] then Some (r, Some ErrInvalidMetricName)
             else
               let r = (if metrics r = None then r\<lparr>metrics := Some fmempty\<rparr> else r)
               in (case metrics r of
                     None \<Rightarrow> None
                   | Some mp \<Rightarrow>
                       (case fmlookup mp n of
                          Some old \<Rightarrow> Some (r, Some (Errorf_w_s ErrDuplicateMetric n))
                        | None \<Rightarrow> Some (r\<lparr>metrics := Some (fmupd n metric mp)\<rparr>, None)))))"

definition Unregister :: "Registry \<Rightarrow> string \<Rightarrow> Registry \<times> error option" where
  "Unregister r n =
     (case metrics r of
        None \<Rightarrow> (r, Some (Errorf_w_s ErrMetricNotFound n))
      | Some mp \<Rightarrow>
          (case fmlookup mp n of
             None \<Rightarrow> (r, Some (Errorf_w_s ErrMetricNotFound n))
           | Some old \<Rightarrow> (r\<lparr>metrics := Some (fmdrop n mp)\<rparr>, None)))"

definition Get :: "Registry \<Rightarrow> string \<Rightarrow> Metric \<times> bool" where
  "Get r n =
     (case metrics r of
        None \<Rightarrow> (NilMetric, False)
      | Some mp \<Rightarrow>
          (case fmlookup mp n of
             None \<Rightarrow> (NilMetric, False)
           | Some metric \<Rightarrow> (metric, True)))"

text \<open>
  The loop of \<open>Snapshot\<close> over the entries in the order \<open>range\<close> visits them, writing
  into the map being built.
\<close>

fun Snapshot_range ::
  "store \<Rightarrow> (string \<times> Metric) list \<Rightarrow> (string, any) fmap \<Rightarrow> (string, any) fmap option" where
  "Snapshot_range s [] snapshot = Some snapshot"
| "Snapshot_range s ((n, metric) # es) snapshot =
     (case Metric_Value s metric of
        None \<Rightarrow> None
      | Some v \<Rightarrow> Snapshot_range s es (fmupd n v snapshot))"

text \<open>
  Go leaves the order of \<open>range\<close> over a map open. The model visits the entries in
  the order of their keys; \<open>Snapshot_range_any_order\<close> below shows that every other
  order gives the same map.
\<close>

definition Snapshot :: "store \<Rightarrow> Registry \<Rightarrow> (store \<times> ptr) option" where
  "Snapshot s r =
     (case metrics r of
        None \<Rightarrow> Some (alloc_snapshot s fmempty)
      | Some mp \<Rightarrow>
          (case Snapshot_range s (sorted_list_of_fmap mp) fmempty of
             None \<Rightarrow> None
           | Some snapshot \<Rightarrow> Some (alloc_snapshot s snapshot)))"

definition Len :: "Registry \<Rightarrow> nat" where
  "Len r = (case metrics r of None \<Rightarrow> 0 | Some mp \<Rightarrow> fcard (fmdom mp))"

definition Clear :: "Registry \<Rightarrow> Registry" where
  "Clear r = (if metrics r \<noteq> None then r\<lparr>metrics := Some fmempty\<rparr> else r)"

subsection \<open>Calls of the package as steps of a run\<close>

text \<open>
  A client of the package makes a sequence of calls. Each call is a step on the store
  and the registry; a step that panics ends the run (\<open>None\<close>).
\<close>

datatype call =
    Call_NewCounter string
  | Call_NewGauge string
  | Call_Counter_Inc ptr
  | Call_Counter_Add ptr int64
  | Call_Gauge_Set ptr float64
  | Call_Gauge_Inc ptr
  | Call_Gauge_Dec ptr
  | Call_Gauge_Add ptr float64
  | Call_Register Metric
  | Call_Unregister string
  | Call_Clear
  | Call_Snapshot

fun exec ::
  "(float64 \<Rightarrow> float64 \<Rightarrow> float64) \<Rightarrow> call \<Rightarrow> store \<times> Registry \<Rightarrow> (store \<times> Registry) option" where
  "exec fadd (Call_NewCounter n) (s, r) = Some (fst (alloc_Counter s (NewCounter n)), r)"
| "exec fadd (Call_NewGauge n) (s, r) = Some (fst (alloc_Gauge s (NewGauge n)), r)"
| "exec fadd (Call_Counter_Inc p) (s, r) =
     map_option (\<lambda>s'. (s', r)) (update_Counter s p Counter_Inc)"
| "exec fadd (Call_Counter_Add p delta) (s, r) =
     map_option (\<lambda>s'. (s', r)) (update_Counter s p (\<lambda>c. Counter_Add c delta))"
| "exec fadd (Call_Gauge_Set p v) (s, r) =
     map_option (\<lambda>s'. (s', r)) (update_Gauge s p (\<lambda>g. Gauge_Set g v))"
| "exec fadd (Call_Gauge_Inc p) (s, r) =
     map_option (\<lambda>s'. (s', r)) (update_Gauge s p (Gauge_Inc fadd))"
| "exec fadd (Call_Gauge_Dec p) (s, r) =
     map_option (\<lambda>s'. (s', r)) (update_Gauge s p (Gauge_Dec fadd))"
| "exec fadd (Call_Gauge_Add p delta) (s, r) =
     map_option (\<lambda>s'. (s', r)) (update_Gauge s p (\<lambda>g. Gauge_Add fadd g delta))"
| "exec fadd (Call_Register metric) (s, r) =
     map_option (\<lambda>(r', err). (s, r')) (Register s r metric)"
| "exec fadd (Call_Unregister n) (s, r) = Some (s, fst (Unregister r n))"
| "exec fadd Call_Clear (s, r) = Some (s, Clear r)"
| "exec fadd Call_Snapshot (s, r) =
     map_option (\<lambda>(s', p). (s', r)) (Snapshot s r)"

fun run ::
  "(float64 \<Rightarrow> float64 \<Rightarrow> float64) \<Rightarrow> call list \<Rightarrow> store \<times> Registry \<Rightarrow> (store \<times> Registry) option" where
  "run fadd [] c = Some c"
| "run fadd (x # xs) c = (case exec fadd x c of None \<Rightarrow> None | Some c' \<Rightarrow> run fadd xs c')"

text \<open>
  Allocated addresses lie below \<open>next_addr\<close>, so that a new object never lands on an
  old one.
\<close>

definition store_wf :: "store \<Rightarrow> bool" where
  "store_wf s =
     ((\<forall>a. a \<in> dom (counters s) \<longrightarrow> a < next_addr s) \<and>
      (\<forall>a. a \<in> dom (gauges s) \<longrightarrow> a < next_addr s) \<and>
      (\<forall>a. a \<in> dom (snapshots s) \<longrightarrow> a < next_addr s))"

text \<open>
  The invariant of the entry map: the instrument stored under a key answers \<open>Name()\<close>
  with that key (so it is neither the nil interface nor a nil pointer).
\<close>

definition registry_inv :: "store \<Rightarrow> Registry \<Rightarrow> bool" where
  "registry_inv s r =
     (\<forall>n metric. Get r n = (metric, True) \<longrightarrow> Metric_Name s metric = Some n)"

section \<open>Properties\<close>

subsection \<open>Constructors\<close>

text \<open>
  C10. The constructors do not look at the name: for every string, the empty one
  included, \<open>NewCounter\<close> and \<open>NewGauge\<close> return an instrument with exactly that name
  and the value 0 (the bit pattern of 0.0 for a gauge). An empty name is turned down
  only later, by \<open>Register\<close>, with \<open>ErrInvalidMetricName\<close>, whatever the registry
  holds.
\<close>

theorem constructors_do_not_validate:
  "Counter_Name (NewCounter n) = n \<and> Counter_Load (NewCounter n) = 0 \<and>
   Gauge_Name (NewGauge n) = n \<and> Gauge_Load (NewGauge n) = float64_zero \<and>
   (\<exists>s' a. alloc_Counter s (NewCounter n) = (s', Some a) \<and>
      Metric_Name s' (CounterPtr (Some a)) = Some n \<and>
      Metric_Value s' (CounterPtr (Some a)) = Some (Int64 0)) \<and>
   (\<exists>s' a. alloc_Gauge s (NewGauge n) = (s', Some a) \<and>
      Metric_Name s' (GaugePtr (Some a)) = Some n \<and>
      Metric_Value s' (GaugePtr (Some a)) = Some (Float64 float64_zero)) \<and>
   (\<exists>s' a. alloc_Counter s (NewCounter []) = (s', Some a) \<and>
      Register s' r (CounterPtr (Some a)) = Some (r, Some ErrInvalidMetricName)) \<and>
   (\<exists>s' a. alloc_Gauge s (NewGauge []) = (s', Some a) \<and>
      Register s' r (GaugePtr (Some a)) = Some (r, Some ErrInvalidMetricName))"
  by (simp add: NewCounter_def NewGauge_def Counter_Name_def Counter_Load_def Gauge_Name_def
      Gauge_Load_def alloc_Counter_def alloc_Gauge_def deref_Counter_def deref_Gauge_def
      Counter_Value_def Gauge_Value_def Register_def)

subsection \<open>Instruments\<close>

text \<open>
  C9. \<open>Value()\<close> returns what \<open>Load()\<close> returns: for a counter the \<open>int64\<close> under the
  tag \<open>Int64\<close>, for a gauge the \<open>float64\<close> (its bit pattern) under the tag \<open>Float64\<close>.
  The same holds for a call through the interface, where a nil pointer panics in both.
\<close>

theorem Value_agrees_with_Load:
  "Counter_Value c = Int64 (Counter_Load c) \<and>
   Gauge_Value g = Float64 (Gauge_Load g) \<and>
   Metric_Value s (CounterPtr p) = map_option (\<lambda>c. Int64 (Counter_Load c)) (deref_Counter s p) \<and>
   Metric_Value s (GaugePtr p) = map_option (\<lambda>g. Float64 (Gauge_Load g)) (deref_Gauge s p)"
  by (cases "deref_Counter s p"; cases "deref_Gauge s p")
    (simp_all add: Counter_Value_def Counter_Load_def Gauge_Value_def Gauge_Load_def)

lemma sint_add_in_range:
  fixes a b :: int64
  assumes "0 \<le> sint b" and "sint a + sint b < 2 ^ 63"
  shows "sint (a + b) = sint a + sint b"
proof -
  have lo: "- (2 ^ 63) \<le> sint a"
    using sint_ge [of a] by simp
  have "sint (a + b) = signed_take_bit 63 (sint a + sint b)"
    by (simp add: sint_word_ariths)
  also have "\<dots> = sint a + sint b"
    using lo assms by (intro signed_take_bit_int_eq_self) auto
  finally show ?thesis .
qed

text \<open>
  C3 (amended). \<open>Add(delta)\<close> adds \<open>max(delta, 0)\<close> to the value in 64-bit two's
  complement arithmetic, which wraps around. While the sum stays below \<open>2^63\<close> the
  value read back is the old one plus \<open>max(delta, 0)\<close> and so does not decrease. On a
  fresh counter \<open>Inc(), Inc(), Add(5)\<close> gives 7 and \<open>Add(-5)\<close> gives 0.
\<close>

theorem Counter_Add_clamps_and_wraps:
  "Counter_Load (Counter_Add c delta) = Counter_Load c + (if delta <s 0 then 0 else delta) \<and>
   Counter_Name (Counter_Add c delta) = Counter_Name c \<and>
   (sint (Counter_Load c) + max (sint delta) 0 < 2 ^ 63 \<longrightarrow>
      sint (Counter_Load (Counter_Add c delta)) = sint (Counter_Load c) + max (sint delta) 0 \<and>
      sint (Counter_Load c) \<le> sint (Counter_Load (Counter_Add c delta))) \<and>
   Counter_Load (Counter_Add (Counter_Inc (Counter_Inc (NewCounter n))) 5) = 7 \<and>
   Counter_Load (Counter_Add (NewCounter n) (- 5)) = 0"
proof -
  have eq: "Counter_Load (Counter_Add c delta) = Counter_Load c + (if delta <s 0 then 0 else delta)"
    by (simp add: Counter_Add_def Counter_Load_def Let_def)
  have nm: "Counter_Name (Counter_Add c delta) = Counter_Name c"
    by (simp add: Counter_Add_def Counter_Name_def Let_def)
  have mono: "sint (Counter_Load (Counter_Add c delta)) = sint (Counter_Load c) + max (sint delta) 0 \<and>
      sint (Counter_Load c) \<le> sint (Counter_Load (Counter_Add c delta))"
    if h: "sint (Counter_Load c) + max (sint delta) 0 < 2 ^ 63"
  proof (cases "delta <s 0")
    case True
    then have "sint delta < 0" by (simp add: word_sless_alt)
    with True show ?thesis by (simp add: eq max_def)
  next
    case False
    then have nn: "0 \<le> sint delta" by (simp add: word_sless_alt)
    with h have "sint (Counter_Load c) + sint delta < 2 ^ 63" by (simp add: max_def)
    from sint_add_in_range [OF nn this] nn False show ?thesis by (simp add: eq max_def)
  qed
  have s1: "Counter_Load (Counter_Add (Counter_Inc (Counter_Inc (NewCounter n))) 5) = 7"
    by (simp add: Counter_Add_def Counter_Inc_def NewCounter_def Counter_Load_def word_sless_alt)
  have s2: "Counter_Load (Counter_Add (NewCounter n) (- 5)) = 0"
    by (simp add: Counter_Add_def NewCounter_def Counter_Load_def word_sless_alt)
  from eq nm mono s1 s2 show ?thesis by blast
qed

text \<open>
  The bound of C3 holds for \<open>Add(5)\<close> on a fresh counter, which then reads 5.
\<close>

theorem Counter_Add_clamps_and_wraps_witness:
  "sint (Counter_Load (NewCounter ''requests'')) + max (sint (5 :: int64)) 0 < 2 ^ 63 \<and>
   sint (Counter_Load (Counter_Add (NewCounter ''requests'') 5)) = 5 \<and>
   sint (Counter_Load (NewCounter ''requests'')) \<le> sint (Counter_Load (Counter_Add (NewCounter ''requests'') 5))"
  using Counter_Add_clamps_and_wraps [of "NewCounter ''requests''" 5 "''requests''"]
  by (simp add: NewCounter_def Counter_Load_def Counter_Add_def word_sless_alt)

text \<open>
  C3 as first stated fails: a counter brought to \<open>2^63 - 1\<close> by
  \<open>Add(9223372036854775807)\<close> reads \<open>-2^63\<close> after \<open>Add(1)\<close>, so its value has decreased
  through \<open>Add\<close>.
\<close>

theorem Counter_Add_overflow_counterexample:
  "sint (Counter_Load (Counter_Add (Counter_Add (NewCounter ''requests'') 0x7FFFFFFFFFFFFFFF) 1))
     < sint (Counter_Load (Counter_Add (NewCounter ''requests'') 0x7FFFFFFFFFFFFFFF))"
  by (simp add: Counter_Add_def NewCounter_def Counter_Load_def word_sless_alt)

subsection \<open>Register, Get, Unregister\<close>

text \<open>A metric answers \<open>Name()\<close> exactly when it points to an existing instrument.\<close>

lemma Metric_Name_Some_iff:
  "Metric_Name s metric = Some n \<longleftrightarrow>
     (\<exists>a c. metric = CounterPtr (Some a) \<and> counters s a = Some c \<and> Counter.name c = n) \<or>
     (\<exists>a g. metric = GaugePtr (Some a) \<and> gauges s a = Some g \<and> Gauge.name g = n)"
  by (cases metric)
    (auto simp: deref_Counter_def deref_Gauge_def Counter_Name_def Gauge_Name_def
      split: option.splits)

lemma Get_found_iff: "snd (Get r n) \<longleftrightarrow> (\<exists>mp metric. metrics r = Some mp \<and> fmlookup mp n = Some metric)"
  by (auto simp: Get_def split: option.splits)

lemma Get_eq_found:
  "Get r n = (metric, True) \<longleftrightarrow> (\<exists>mp. metrics r = Some mp \<and> fmlookup mp n = Some metric)"
  by (auto simp: Get_def split: option.splits)

lemma errors_Is_Errorf_w_s: "errors_Is (Errorf_w_s e n) e"
  by (cases e) (simp_all add: Errorf_w_s_def)

lemma Register_invalid:
  "Metric_Name s metric = Some [] \<Longrightarrow> Register s r metric = Some (r, Some ErrInvalidMetricName)"
  by (auto simp: Register_def)

lemma Register_duplicate:
  assumes "Metric_Name s metric = Some n" "n \<noteq> []" "snd (Get r n)"
  shows "Register s r metric = Some (r, Some (Errorf_w_s ErrDuplicateMetric n))"
  using assms by (auto simp: Register_def Get_found_iff)

lemma Register_fresh:
  assumes "Metric_Name s metric = Some n" "n \<noteq> []" "\<not> snd (Get r n)"
  shows "Register s r metric =
    Some (r\<lparr>metrics := Some (fmupd n metric (case metrics r of None \<Rightarrow> fmempty | Some mp \<Rightarrow> mp))\<rparr>, None)"
  using assms by (auto simp: Register_def Get_found_iff split: option.splits)

text \<open>
  The four ways in which \<open>Register\<close> returns; any other call of it panics.
\<close>

lemma Register_cases:
  assumes "Register s r metric = Some (r', err)"
  obtains
    (nil) "metric = NilMetric" "r' = r" "err = Some (ErrorString ''cannot register nil metric'')"
  | (invalid) "Metric_Name s metric = Some []" "r' = r" "err = Some ErrInvalidMetricName"
  | (duplicate) n where "Metric_Name s metric = Some n" "n \<noteq> []" "snd (Get r n)" "r' = r"
      "err = Some (Errorf_w_s ErrDuplicateMetric n)"
  | (fresh) n where "Metric_Name s metric = Some n" "n \<noteq> []" "\<not> snd (Get r n)"
      "r' = r\<lparr>metrics := Some (fmupd n metric (case metrics r of None \<Rightarrow> fmempty | Some mp \<Rightarrow> mp))\<rparr>"
      "err = None"
proof (cases "metric = NilMetric")
  case True
  with assms have "r' = r" "err = Some (ErrorString ''cannot register nil metric'')"
    by (simp_all add: Register_def)
  with True show ?thesis by (rule nil)
next
  case False
  with assms obtain n where n: "Metric_Name s metric = Some n"
    by (auto simp: Register_def split: option.splits)
  show ?thesis
  proof (cases "n = []")
    case True
    with n have "Register s r metric = Some (r, Some ErrInvalidMetricName)"
      by (simp add: Register_invalid)
    with assms have "r' = r" "err = Some ErrInvalidMetricName" by simp_all
    with n True show ?thesis by (intro invalid) simp_all
  next
    case ne: False
    show ?thesis
    proof (cases "snd (Get r n)")
      case True
      from Register_duplicate [OF n ne True] assms
      have "r' = r" "err = Some (Errorf_w_s ErrDuplicateMetric n)" by simp_all
      with n ne True show ?thesis by (intro duplicate)
    next
      case False
      from Register_fresh [OF n ne False] assms
      have "r' = r\<lparr>metrics := Some (fmupd n metric (case metrics r of None \<Rightarrow> fmempty | Some mp \<Rightarrow> mp))\<rparr>"
        "err = None" by simp_all
      with n ne False show ?thesis by (intro fresh)
    qed
  qed
qed

lemma Len_fmupd_fresh:
  "fmlookup mp n = None \<Longrightarrow> fcard (finsert n (fmdom mp)) = Suc (fcard (fmdom mp))"
  by (simp add: fcard_finsert_disjoint fmdom_notI)

lemma Len_fmdrop_present:
  "fmlookup mp n = Some metric \<Longrightarrow> Suc (fcard (fmdom mp |-| {|n|})) = fcard (fmdom mp)"
  by (rule fcard_Suc_fminus1) (rule fmdomI)

text \<open>
  C1 (amended). For every registry and every metric that is the nil interface or
  answers \<open>Name()\<close> (a pointer to an existing counter or gauge), \<open>Register\<close> fails with
  the error "cannot register nil metric" when the metric is the nil interface, with
  \<open>ErrInvalidMetricName\<close> when its name is empty, otherwise with an error wrapping
  \<open>ErrDuplicateMetric\<close> when its name is already present, and otherwise succeeds, after
  which \<open>Get\<close> on the name returns the metric. The three errors are told apart by
  \<open>errors.Is\<close>.
\<close>

theorem Register_outcomes:
  "Register s r NilMetric = Some (r, Some (ErrorString ''cannot register nil metric'')) \<and>
   (Metric_Name s metric = Some n \<longrightarrow> n = [] \<longrightarrow>
      Register s r metric = Some (r, Some ErrInvalidMetricName)) \<and>
   (Metric_Name s metric = Some n \<longrightarrow> n \<noteq> [] \<longrightarrow> snd (Get r n) \<longrightarrow>
      (\<exists>e. Register s r metric = Some (r, Some e) \<and> errors_Is e ErrDuplicateMetric)) \<and>
   (Metric_Name s metric = Some n \<longrightarrow> n \<noteq> [] \<longrightarrow> \<not> snd (Get r n) \<longrightarrow>
      (\<exists>r'. Register s r metric = Some (r', None) \<and> Get r' n = (metric, True))) \<and>
   \<not> errors_Is (ErrorString ''cannot register nil metric'') ErrInvalidMetricName \<and>
   \<not> errors_Is (ErrorString ''cannot register nil metric'') ErrDuplicateMetric \<and>
   \<not> errors_Is ErrInvalidMetricName ErrDuplicateMetric \<and>
   \<not> errors_Is (Errorf_w_s ErrDuplicateMetric n) ErrInvalidMetricName"
proof -
  have a: "Register s r NilMetric = Some (r, Some (ErrorString ''cannot register nil metric''))"
    by (simp add: Register_def)
  have b: "Register s r metric = Some (r, Some ErrInvalidMetricName)"
    if "Metric_Name s metric = Some n" "n = []"
    using that by (simp add: Register_invalid)
  have c: "\<exists>e. Register s r metric = Some (r, Some e) \<and> errors_Is e ErrDuplicateMetric"
    if "Metric_Name s metric = Some n" "n \<noteq> []" "snd (Get r n)"
    using Register_duplicate [OF that] errors_Is_Errorf_w_s by blast
  have d: "\<exists>r'. Register s r metric = Some (r', None) \<and> Get r' n = (metric, True)"
    if "Metric_Name s metric = Some n" "n \<noteq> []" "\<not> snd (Get r n)"
    using Register_fresh [OF that] by (simp add: Get_def)
  have e: "\<not> errors_Is (ErrorString ''cannot register nil metric'') ErrInvalidMetricName"
    "\<not> errors_Is (ErrorString ''cannot register nil metric'') ErrDuplicateMetric"
    "\<not> errors_Is ErrInvalidMetricName ErrDuplicateMetric"
    "\<not> errors_Is (Errorf_w_s ErrDuplicateMetric n) ErrInvalidMetricName"
    by (simp_all add: ErrInvalidMetricName_def ErrDuplicateMetric_def Errorf_w_s_def)
  from a b c d e show ?thesis by blast
qed

text \<open>
  The three cases of C1 that have a name, on a counter named \<open>requests\<close> and on
  one with the empty name.
\<close>

theorem Register_outcomes_witness:
  "Metric_Name (fst (alloc_Counter empty_store (NewCounter ''requests''))) (CounterPtr (Some 0))
     = Some ''requests'' \<and>
   ''requests'' \<noteq> [] \<and>
   \<not> snd (Get zero_Registry ''requests'') \<and>
   (\<exists>r'. Register (fst (alloc_Counter empty_store (NewCounter ''requests''))) zero_Registry
           (CounterPtr (Some 0)) = Some (r', None) \<and>
         Get r' ''requests'' = (CounterPtr (Some 0), True)) \<and>
   snd (Get \<lparr>metrics = Some (fmupd ''requests'' (GaugePtr (Some 7)) fmempty)\<rparr> ''requests'') \<and>
   (\<exists>e. Register (fst (alloc_Counter empty_store (NewCounter ''requests'')))
           \<lparr>metrics = Some (fmupd ''requests'' (GaugePtr (Some 7)) fmempty)\<rparr> (CounterPtr (Some 0))
         = Some (\<lparr>metrics = Some (fmupd ''requests'' (GaugePtr (Some 7)) fmempty)\<rparr>, Some e) \<and>
        errors_Is e ErrDuplicateMetric) \<and>
   Metric_Name (fst (alloc_Counter empty_store (NewCounter []))) (CounterPtr (Some 0)) = Some [] \<and>
   Register (fst (alloc_Counter empty_store (NewCounter []))) zero_Registry (CounterPtr (Some 0))
     = Some (zero_Registry, Some ErrInvalidMetricName)"
  using
    Register_outcomes [of "fst (alloc_Counter empty_store (NewCounter ''requests''))" zero_Registry
      "CounterPtr (Some 0)" "''requests''"]
    Register_outcomes [of "fst (alloc_Counter empty_store (NewCounter ''requests''))"
      "\<lparr>metrics = Some (fmupd ''requests'' (GaugePtr (Some 7)) fmempty)\<rparr>"
      "CounterPtr (Some 0)" "''requests''"]
    Register_outcomes [of "fst (alloc_Counter empty_store (NewCounter []))" zero_Registry
      "CounterPtr (Some 0)" "[]"]
  by (simp add: alloc_Counter_def empty_store_def NewCounter_def deref_Counter_def Counter_Name_def
      zero_Registry_def Get_def)

text \<open>
  C1 as first stated fails: a \<open>Metric\<close> that holds a nil \<open>*Counter\<close> is not equal
  to \<open>nil\<close>, so the guard lets it through and \<open>metric.Name()\<close> dereferences the nil
  pointer. The call panics: it neither returns an error nor succeeds.
\<close>

theorem Register_typed_nil_counterexample:
  "Register empty_store (NewRegistry 0) (CounterPtr None) = None"
  by (simp add: Register_def deref_Counter_def)

text \<open>
  C5. A metric with a non-empty name that is not yet present is registered with
  success, and after every successful \<open>Register\<close> a \<open>Get\<close> on the name of the metric
  returns that very reference and \<open>true\<close>.
\<close>

theorem Register_Get_round_trip:
  "(Metric_Name s metric = Some n \<longrightarrow> n \<noteq> [] \<longrightarrow> \<not> snd (Get r n) \<longrightarrow>
      (\<exists>r'. Register s r metric = Some (r', None))) \<and>
   (Register s r metric = Some (r', None) \<longrightarrow>
      (\<exists>n. Metric_Name s metric = Some n \<and> n \<noteq> [] \<and> \<not> snd (Get r n) \<and>
           Get r' n = (metric, True)))"
proof -
  have a: "\<exists>r'. Register s r metric = Some (r', None)"
    if "Metric_Name s metric = Some n" "n \<noteq> []" "\<not> snd (Get r n)"
    using Register_fresh [OF that] by simp
  have b: "\<exists>n. Metric_Name s metric = Some n \<and> n \<noteq> [] \<and> \<not> snd (Get r n) \<and> Get r' n = (metric, True)"
    if "Register s r metric = Some (r', None)"
    using that by (cases rule: Register_cases) (auto simp: Get_def)
  from a b show ?thesis by blast
qed

text \<open>
  C5 on a gauge named \<open>temp\<close> and a registry made by \<open>NewRegistry(0)\<close>.
\<close>

theorem Register_Get_round_trip_witness:
  "Metric_Name (fst (alloc_Gauge empty_store (NewGauge ''temp''))) (GaugePtr (Some 0)) = Some ''temp'' \<and>
   ''temp'' \<noteq> [] \<and> \<not> snd (Get (NewRegistry 0) ''temp'') \<and>
   Register (fst (alloc_Gauge empty_store (NewGauge ''temp''))) (NewRegistry 0) (GaugePtr (Some 0))
     = Some (\<lparr>metrics = Some (fmupd ''temp'' (GaugePtr (Some 0)) fmempty)\<rparr>, None) \<and>
   Get \<lparr>metrics = Some (fmupd ''temp'' (GaugePtr (Some 0)) fmempty)\<rparr> ''temp'' = (GaugePtr (Some 0), True)"
  using Register_Get_round_trip [of "fst (alloc_Gauge empty_store (NewGauge ''temp''))"
      "GaugePtr (Some 0)" "''temp''" "NewRegistry 0"
      "\<lparr>metrics = Some (fmupd ''temp'' (GaugePtr (Some 0)) fmempty)\<rparr>"]
  by (simp add: alloc_Gauge_def empty_store_def NewGauge_def deref_Gauge_def Gauge_Name_def
      NewRegistry_def Get_def Register_def)

text \<open>
  C6. When \<open>Register\<close> returns an error the registry is the one before the call:
  the same entries, the same \<open>Len()\<close>, the same answer of \<open>Get\<close> for every name, and the
  store is untouched. When it returns no error exactly one entry has been added. An
  \<open>Unregister\<close> that returns an error changes nothing either.
\<close>

theorem failed_Register_changes_nothing:
  "(Register s r metric = Some (r', Some e) \<longrightarrow>
      r' = r \<and> Len r' = Len r \<and> (\<forall>k. Get r' k = Get r k) \<and>
      exec fadd (Call_Register metric) (s, r) = Some (s, r)) \<and>
   (Register s r metric = Some (r', None) \<longrightarrow>
      (\<exists>n. Metric_Name s metric = Some n \<and> Len r' = Suc (Len r) \<and>
           (\<forall>k. Get r' k = (if k = n then (metric, True) else Get r k)))) \<and>
   (Unregister r n = (r', Some e) \<longrightarrow> r' = r)"
proof -
  have a: "r' = r \<and> Len r' = Len r \<and> (\<forall>k. Get r' k = Get r k) \<and>
      exec fadd (Call_Register metric) (s, r) = Some (s, r)"
    if h: "Register s r metric = Some (r', Some e)"
  proof -
    from h have "r' = r" by (cases rule: Register_cases) simp_all
    with h show ?thesis by simp
  qed
  have b: "\<exists>n. Metric_Name s metric = Some n \<and> Len r' = Suc (Len r) \<and>
           (\<forall>k. Get r' k = (if k = n then (metric, True) else Get r k))"
    if h: "Register s r metric = Some (r', None)"
    using h
  proof (cases rule: Register_cases)
    case (fresh n)
    then have "Len r' = Suc (Len r)"
      by (auto simp: Len_def Get_found_iff Len_fmupd_fresh fcard_finsert_if split: option.splits)
    moreover have "Get r' k = (if k = n then (metric, True) else Get r k)" for k
      using fresh by (auto simp: Get_def split: option.splits)
    ultimately show ?thesis using fresh by blast
  qed simp_all
  have c: "r' = r" if "Unregister r n = (r', Some e)"
    using that by (auto simp: Unregister_def split: option.splits)
  from a b c show ?thesis by blast
qed

text \<open>
  C6 on a contested name: the second \<open>Register\<close> fails and the first entry stays;
  on the zero registry the same call succeeds and \<open>Len()\<close> grows by one.
\<close>

theorem failed_Register_changes_nothing_witness:
  "Register (fst (alloc_Counter empty_store (NewCounter ''duplicate'')))
      \<lparr>metrics = Some (fmupd ''duplicate'' (CounterPtr (Some 5)) fmempty)\<rparr> (CounterPtr (Some 0))
     = Some (\<lparr>metrics = Some (fmupd ''duplicate'' (CounterPtr (Some 5)) fmempty)\<rparr>,
             Some (Errorf_w_s ErrDuplicateMetric ''duplicate'')) \<and>
   Get \<lparr>metrics = Some (fmupd ''duplicate'' (CounterPtr (Some 5)) fmempty)\<rparr> ''duplicate''
     = (CounterPtr (Some 5), True) \<and>
   Register (fst (alloc_Counter empty_store (NewCounter ''duplicate''))) zero_Registry (CounterPtr (Some 0))
     = Some (\<lparr>metrics = Some (fmupd ''duplicate'' (CounterPtr (Some 0)) fmempty)\<rparr>, None) \<and>
   Len \<lparr>metrics = Some (fmupd ''duplicate'' (CounterPtr (Some 0)) fmempty)\<rparr> = Suc (Len zero_Registry) \<and>
   Unregister zero_Registry ''nonexistent''
     = (zero_Registry, Some (Errorf_w_s ErrMetricNotFound ''nonexistent''))"
  using
    failed_Register_changes_nothing [of "fst (alloc_Counter empty_store (NewCounter ''duplicate''))"
      "\<lparr>metrics = Some (fmupd ''duplicate'' (CounterPtr (Some 5)) fmempty)\<rparr>" "CounterPtr (Some 0)"
      "\<lparr>metrics = Some (fmupd ''duplicate'' (CounterPtr (Some 5)) fmempty)\<rparr>"
      "Errorf_w_s ErrDuplicateMetric ''duplicate''" "(+)" "''nonexistent''"]
    failed_Register_changes_nothing [of "fst (alloc_Counter empty_store (NewCounter ''duplicate''))"
      zero_Registry "CounterPtr (Some 0)"
      "\<lparr>metrics = Some (fmupd ''duplicate'' (CounterPtr (Some 0)) fmempty)\<rparr>"
      "Errorf_w_s ErrMetricNotFound ''nonexistent''" "(+)" "''nonexistent''"]
    failed_Register_changes_nothing [of "fst (alloc_Counter empty_store (NewCounter ''duplicate''))"
      zero_Registry "CounterPtr (Some 0)" zero_Registry
      "Errorf_w_s ErrMetricNotFound ''nonexistent''" "(+)" "''nonexistent''"]
  by (simp add: alloc_Counter_def empty_store_def NewCounter_def deref_Counter_def Counter_Name_def
      zero_Registry_def Get_def Register_def Unregister_def Len_def)

lemma Unregister_absent:
  "\<not> snd (Get r n) \<Longrightarrow> Unregister r n = (r, Some (Errorf_w_s ErrMetricNotFound n))"
  by (auto simp: Unregister_def Get_found_iff split: option.splits)

lemma Unregister_present:
  "metrics r = Some mp \<Longrightarrow> fmlookup mp n = Some metric \<Longrightarrow>
   Unregister r n = (r\<lparr>metrics := Some (fmdrop n mp)\<rparr>, None)"
  by (simp add: Unregister_def)

text \<open>
  C7. \<open>Unregister\<close> returns an error exactly when the name is not present; the
  error wraps \<open>ErrMetricNotFound\<close> and the registry is unchanged. When the name is
  present the call returns no error, \<open>Get\<close> on the name then reports not found,
  \<open>Len()\<close> is one less, every other name is as before, and the store, hence the
  instrument, is untouched.
\<close>

theorem Unregister_semantics:
  "((\<exists>e. snd (Unregister r n) = Some e) \<longleftrightarrow> \<not> snd (Get r n)) \<and>
   (\<not> snd (Get r n) \<longrightarrow>
      fst (Unregister r n) = r \<and>
      (\<exists>e. snd (Unregister r n) = Some e \<and> errors_Is e ErrMetricNotFound)) \<and>
   (snd (Get r n) \<longrightarrow>
      snd (Unregister r n) = None \<and>
      Get (fst (Unregister r n)) n = (NilMetric, False) \<and>
      Suc (Len (fst (Unregister r n))) = Len r \<and>
      (\<forall>k. k \<noteq> n \<longrightarrow> Get (fst (Unregister r n)) k = Get r k)) \<and>
   exec fadd (Call_Unregister n) (s, r) = Some (s, fst (Unregister r n))"
proof -
  have absent: "fst (Unregister r n) = r \<and>
      (\<exists>e. snd (Unregister r n) = Some e \<and> errors_Is e ErrMetricNotFound)"
    if "\<not> snd (Get r n)"
    using Unregister_absent [OF that] by (simp add: errors_Is_Errorf_w_s)
  have present: "snd (Unregister r n) = None \<and>
      Get (fst (Unregister r n)) n = (NilMetric, False) \<and>
      Suc (Len (fst (Unregister r n))) = Len r \<and>
      (\<forall>k. k \<noteq> n \<longrightarrow> Get (fst (Unregister r n)) k = Get r k)"
    if "snd (Get r n)"
  proof -
    from that obtain mp metric where mp: "metrics r = Some mp" "fmlookup mp n = Some metric"
      by (auto simp: Get_found_iff)
    note u = Unregister_present [OF mp]
    have "Suc (Len (fst (Unregister r n))) = Len r"
      using mp by (simp add: u Len_def Len_fmdrop_present)
    moreover have "Get (fst (Unregister r n)) n = (NilMetric, False)"
      by (simp add: u Get_def)
    moreover have "Get (fst (Unregister r n)) k = Get r k" if "k \<noteq> n" for k
      using that mp by (simp add: u Get_def)
    ultimately show ?thesis by (simp add: u)
  qed
  have iff: "(\<exists>e. snd (Unregister r n) = Some e) \<longleftrightarrow> \<not> snd (Get r n)"
    using absent present by (cases "snd (Get r n)") auto
  have frame: "exec fadd (Call_Unregister n) (s, r) = Some (s, fst (Unregister r n))"
    by simp
  from absent present iff frame show ?thesis by blast
qed

text \<open>
  C7 on a registry holding \<open>test\<close>, and on an absent name.
\<close>

theorem Unregister_semantics_witness:
  "snd (Get \<lparr>metrics = Some (fmupd ''test'' (CounterPtr (Some 0)) fmempty)\<rparr> ''test'') \<and>
   Unregister \<lparr>metrics = Some (fmupd ''test'' (CounterPtr (Some 0)) fmempty)\<rparr> ''test''
     = (\<lparr>metrics = Some fmempty\<rparr>, None) \<and>
   Get \<lparr>metrics = Some fmempty\<rparr> ''test'' = (NilMetric, False) \<and>
   Suc (Len \<lparr>metrics = Some fmempty\<rparr>) =
     Len \<lparr>metrics = Some (fmupd ''test'' (CounterPtr (Some 0)) fmempty)\<rparr> \<and>
   \<not> snd (Get (NewRegistry 0) ''nonexistent'') \<and>
   fst (Unregister (NewRegistry 0) ''nonexistent'') = NewRegistry 0 \<and>
   (\<exists>e. snd (Unregister (NewRegistry 0) ''nonexistent'') = Some e \<and> errors_Is e ErrMetricNotFound)"
  using
    Unregister_semantics [of "\<lparr>metrics = Some (fmupd ''test'' (CounterPtr (Some 0)) fmempty)\<rparr>"
      "''test''" "(+)" empty_store]
    Unregister_semantics [of "NewRegistry 0" "''nonexistent''" "(+)" empty_store]
  by (simp add: Get_def Unregister_def NewRegistry_def Len_def fmdrop_fmupd_same)

subsection \<open>The zero value\<close>

text \<open>
  C4. The zero \<open>Registry\<close> has \<open>Len()\<close> 0, \<open>Get\<close> reports not found for every
  name, \<open>Snapshot()\<close> returns a non-nil empty map, and the first \<open>Register\<close> of a
  metric with a non-empty name succeeds, allocating the map, with the same result
  as on a registry made by \<open>NewRegistry\<close>.
\<close>

theorem zero_value_Registry_usable:
  "Len zero_Registry = 0 \<and>
   Get zero_Registry n = (NilMetric, False) \<and>
   (\<exists>s' a. Snapshot s zero_Registry = Some (s', Some a) \<and> snapshots s' a = Some fmempty) \<and>
   (Metric_Name s metric = Some n \<longrightarrow> n \<noteq> [] \<longrightarrow>
      (\<exists>r'. Register s zero_Registry metric = Some (r', None) \<and>
            metrics r' = Some (fmupd n metric fmempty) \<and>
            Len r' = 1 \<and> Get r' n = (metric, True) \<and>
            Register s (NewRegistry 0) metric = Some (r', None)))"
proof -
  have a: "Len zero_Registry = 0" "Get zero_Registry n = (NilMetric, False)"
    by (simp_all add: Len_def Get_def zero_Registry_def)
  have b: "\<exists>s' a. Snapshot s zero_Registry = Some (s', Some a) \<and> snapshots s' a = Some fmempty"
    by (simp add: Snapshot_def zero_Registry_def alloc_snapshot_def)
  have c: "\<exists>r'. Register s zero_Registry metric = Some (r', None) \<and>
            metrics r' = Some (fmupd n metric fmempty) \<and>
            Len r' = 1 \<and> Get r' n = (metric, True) \<and>
            Register s (NewRegistry 0) metric = Some (r', None)"
    if h: "Metric_Name s metric = Some n" "n \<noteq> []"
  proof -
    have z: "\<not> snd (Get zero_Registry n)" "\<not> snd (Get (NewRegistry 0) n)"
      by (simp_all add: Get_def zero_Registry_def NewRegistry_def)
    show ?thesis
      using Register_fresh [OF h z(1)] Register_fresh [OF h z(2)]
      by (simp add: zero_Registry_def NewRegistry_def Len_def Get_def fcard_finsert_if)
  qed
  from a b c show ?thesis by blast
qed

text \<open>
  C4 on a counter named \<open>test\<close>.
\<close>

theorem zero_value_Registry_usable_witness:
  "Metric_Name (fst (alloc_Counter empty_store (NewCounter ''test''))) (CounterPtr (Some 0)) = Some ''test'' \<and>
   ''test'' \<noteq> [] \<and>
   Register (fst (alloc_Counter empty_store (NewCounter ''test''))) zero_Registry (CounterPtr (Some 0))
     = Some (\<lparr>metrics = Some (fmupd ''test'' (CounterPtr (Some 0)) fmempty)\<rparr>, None) \<and>
   Len \<lparr>metrics = Some (fmupd ''test'' (CounterPtr (Some 0)) fmempty)\<rparr> = 1"
  using zero_value_Registry_usable [of "''test''" "fst (alloc_Counter empty_store (NewCounter ''test''))"
      "CounterPtr (Some 0)"]
  by (simp add: alloc_Counter_def empty_store_def NewCounter_def deref_Counter_def Counter_Name_def
      zero_Registry_def Register_def Len_def fcard_finsert_if)

subsection \<open>The invariant of the entry map\<close>

lemma store_wf_empty: "store_wf empty_store"
  by (simp add: store_wf_def empty_store_def)

lemma registry_inv_zero: "registry_inv s zero_Registry"
  by (simp add: registry_inv_def Get_def zero_Registry_def)

lemma registry_inv_New: "registry_inv s (NewRegistry capacity)"
  by (simp add: registry_inv_def Get_def NewRegistry_def)

lemma Counter_Name_Inc: "Counter_Name (Counter_Inc c) = Counter_Name c"
  by (simp add: Counter_Name_def Counter_Inc_def)

lemma Counter_Name_Add: "Counter_Name (Counter_Add c delta) = Counter_Name c"
  by (simp add: Counter_Name_def Counter_Add_def Let_def)

lemma Gauge_Name_ops:
  "Gauge_Name (Gauge_Set g v) = Gauge_Name g"
  "Gauge_Name (Gauge_Inc fadd g) = Gauge_Name g"
  "Gauge_Name (Gauge_Dec fadd g) = Gauge_Name g"
  "Gauge_Name (Gauge_Add fadd g delta) = Gauge_Name g"
  by (simp_all add: Gauge_Name_def Gauge_Set_def Gauge_Inc_def Gauge_Dec_def Gauge_Add_def)

text \<open>
  A method that keeps the name of its receiver keeps every \<open>Name()\<close> of the store.
\<close>

lemma update_Counter_Name:
  assumes "update_Counter s p f = Some s'" and "\<And>c. Counter_Name (f c) = Counter_Name c"
  shows "Metric_Name s' metric = Metric_Name s metric"
  using assms
  by (cases metric)
    (auto simp: update_Counter_def deref_Counter_def deref_Gauge_def split: option.splits)

lemma update_Gauge_Name:
  assumes "update_Gauge s p f = Some s'" and "\<And>g. Gauge_Name (f g) = Gauge_Name g"
  shows "Metric_Name s' metric = Metric_Name s metric"
  using assms
  by (cases metric)
    (auto simp: update_Gauge_def deref_Counter_def deref_Gauge_def split: option.splits)

lemma update_Counter_frame:
  "update_Counter s p f = Some s' \<Longrightarrow>
   next_addr s' = next_addr s \<and> snapshots s' = snapshots s \<and> gauges s' = gauges s \<and>
   dom (counters s') = dom (counters s)"
  by (auto simp: update_Counter_def split: option.splits if_splits)

lemma update_Gauge_frame:
  "update_Gauge s p f = Some s' \<Longrightarrow>
   next_addr s' = next_addr s \<and> snapshots s' = snapshots s \<and> counters s' = counters s \<and>
   dom (gauges s') = dom (gauges s)"
  by (auto simp: update_Gauge_def split: option.splits if_splits)

lemma alloc_Counter_Name:
  assumes "store_wf s" and "Metric_Name s metric = Some n"
  shows "Metric_Name (fst (alloc_Counter s c)) metric = Some n"
proof (cases metric)
  case (CounterPtr p)
  with assms(2) obtain a where a: "p = Some a" "a \<in> dom (counters s)"
    by (auto simp: deref_Counter_def split: option.splits)
  with assms(1) have "a \<noteq> next_addr s" by (auto simp: store_wf_def)
  with assms(2) CounterPtr a show ?thesis
    by (simp add: alloc_Counter_def deref_Counter_def)
qed (use assms in \<open>auto simp: alloc_Counter_def deref_Gauge_def split: option.splits\<close>)

lemma alloc_Gauge_Name:
  assumes "store_wf s" and "Metric_Name s metric = Some n"
  shows "Metric_Name (fst (alloc_Gauge s g)) metric = Some n"
proof (cases metric)
  case (GaugePtr p)
  with assms(2) obtain a where a: "p = Some a" "a \<in> dom (gauges s)"
    by (auto simp: deref_Gauge_def split: option.splits)
  with assms(1) have "a \<noteq> next_addr s" by (auto simp: store_wf_def)
  with assms(2) GaugePtr a show ?thesis
    by (simp add: alloc_Gauge_def deref_Gauge_def)
qed (use assms in \<open>auto simp: alloc_Gauge_def deref_Counter_def split: option.splits\<close>)

lemma deref_alloc_snapshot:
  "deref_Counter (fst (alloc_snapshot s m)) p = deref_Counter s p"
  "deref_Gauge (fst (alloc_snapshot s m)) p = deref_Gauge s p"
  by (cases p; simp add: alloc_snapshot_def deref_Counter_def deref_Gauge_def)+

lemma alloc_snapshot_Name: "Metric_Name (fst (alloc_snapshot s m)) metric = Metric_Name s metric"
  by (cases metric) (simp_all add: deref_alloc_snapshot)

lemma store_wf_alloc:
  "store_wf s \<Longrightarrow> store_wf (fst (alloc_Counter s c))"
  "store_wf s \<Longrightarrow> store_wf (fst (alloc_Gauge s g))"
  "store_wf s \<Longrightarrow> store_wf (fst (alloc_snapshot s m))"
  by (auto simp: store_wf_def alloc_Counter_def alloc_Gauge_def alloc_snapshot_def less_Suc_eq
      split: if_splits)

lemma store_wf_update_Counter: "store_wf s \<Longrightarrow> update_Counter s p f = Some s' \<Longrightarrow> store_wf s'"
  using update_Counter_frame [of s p f s'] by (simp add: store_wf_def)

lemma store_wf_update_Gauge: "store_wf s \<Longrightarrow> update_Gauge s p f = Some s' \<Longrightarrow> store_wf s'"
  using update_Gauge_frame [of s p f s'] by (simp add: store_wf_def)

lemma Snapshot_store:
  "Snapshot s r = Some (s', p) \<Longrightarrow> \<exists>m. alloc_snapshot s m = (s', p)"
  by (auto simp: Snapshot_def split: option.splits)

text \<open>
  The operations of the registry keep the invariant.
\<close>

lemma registry_inv_names:
  assumes "registry_inv s r" and "\<And>metric n. Metric_Name s metric = Some n \<Longrightarrow> Metric_Name s' metric = Some n"
  shows "registry_inv s' r"
  using assms by (simp add: registry_inv_def)

lemma registry_inv_Register:
  assumes "registry_inv s r" and "Register s r metric = Some (r', err)"
  shows "registry_inv s r'"
  using assms(2)
proof (cases rule: Register_cases)
  case (fresh n)
  with assms(1) show ?thesis
    by (auto simp: registry_inv_def Get_eq_found split: option.splits if_splits)
qed (use assms(1) in simp_all)

lemma registry_inv_Unregister: "registry_inv s r \<Longrightarrow> registry_inv s (fst (Unregister r n))"
  by (auto simp: registry_inv_def Unregister_def Get_eq_found split: option.splits if_splits)

lemma registry_inv_Clear: "registry_inv s r \<Longrightarrow> registry_inv s (Clear r)"
  by (auto simp: registry_inv_def Clear_def Get_eq_found)

lemma exec_invariant:
  assumes "store_wf s" "registry_inv s r" "exec fadd c (s, r) = Some (s', r')"
  shows "store_wf s' \<and> registry_inv s' r'"
proof (cases c)
  case (Call_NewCounter n)
  with assms show ?thesis
    by (auto simp: store_wf_alloc intro: registry_inv_names alloc_Counter_Name)
next
  case (Call_NewGauge n)
  with assms show ?thesis
    by (auto simp: store_wf_alloc intro: registry_inv_names alloc_Gauge_Name)
next
  case (Call_Counter_Inc p)
  with assms show ?thesis
    by (auto simp: update_Counter_Name Counter_Name_Inc
        intro: store_wf_update_Counter registry_inv_names)
next
  case (Call_Counter_Add p delta)
  with assms show ?thesis
    by (auto simp: update_Counter_Name Counter_Name_Add
        intro: store_wf_update_Counter registry_inv_names)
next
  case (Call_Gauge_Set p v)
  with assms show ?thesis
    by (auto simp: update_Gauge_Name Gauge_Name_ops
        intro: store_wf_update_Gauge registry_inv_names)
next
  case (Call_Gauge_Inc p)
  with assms show ?thesis
    by (auto simp: update_Gauge_Name Gauge_Name_ops
        intro: store_wf_update_Gauge registry_inv_names)
next
  case (Call_Gauge_Dec p)
  with assms show ?thesis
    by (auto simp: update_Gauge_Name Gauge_Name_ops
        intro: store_wf_update_Gauge registry_inv_names)
next
  case (Call_Gauge_Add p delta)
  with assms show ?thesis
    by (auto simp: update_Gauge_Name Gauge_Name_ops
        intro: store_wf_update_Gauge registry_inv_names)
next
  case (Call_Register metric)
  with assms show ?thesis
    by (auto intro: registry_inv_Register)
next
  case (Call_Unregister n)
  with assms show ?thesis
    by (auto intro: registry_inv_Unregister)
next
  case Call_Clear
  with assms show ?thesis
    by (auto intro: registry_inv_Clear)
next
  case Call_Snapshot
  with assms(3) have "map_option (\<lambda>(s', p). (s', r)) (Snapshot s r) = Some (s', r')"
    by (simp only: exec.simps)
  then obtain p where sn: "Snapshot s r = Some (s', p)" and r: "r' = r"
    by (cases "Snapshot s r") auto
  from Snapshot_store [OF sn] obtain m where "alloc_snapshot s m = (s', p)" ..
  then have m: "s' = fst (alloc_snapshot s m)" by simp
  from assms(1) have "store_wf s'" by (simp add: m store_wf_alloc)
  moreover from assms(2) have "registry_inv s' r'"
    by (simp add: r m registry_inv_def alloc_snapshot_Name)
  ultimately show ?thesis by simp
qed

lemma run_invariant:
  "store_wf s \<Longrightarrow> registry_inv s r \<Longrightarrow> run fadd calls (s, r) = Some (s', r') \<Longrightarrow>
   store_wf s' \<and> registry_inv s' r'"
proof (induction calls arbitrary: s r)
  case Nil
  then show ?case by simp
next
  case (Cons c calls)
  from Cons.prems(3) obtain s1 r1 where
    step: "exec fadd c (s, r) = Some (s1, r1)" and rest: "run fadd calls (s1, r1) = Some (s', r')"
    by (auto split: option.splits)
  from exec_invariant [OF Cons.prems(1,2) step] Cons.IH [OF _ _ rest]
  show ?case by simp
qed

lemma Metric_Name_live:
  "Metric_Name s metric = Some n \<Longrightarrow>
   metric \<noteq> NilMetric \<and> metric \<noteq> CounterPtr None \<and> metric \<noteq> GaugePtr None"
  by (auto simp: deref_Counter_def deref_Gauge_def)

text \<open>
  C8. In every state reached from an empty or zero registry by calls of the package
  (\<open>Register\<close>, \<open>Unregister\<close>, \<open>Clear\<close>, and the creation and update of instruments
  in between), a name has at most one instrument, two entries never hold instruments
  of the same name, and the instrument under a name is neither the nil interface nor
  a nil pointer and answers \<open>Name()\<close> with that name.
\<close>

theorem registry_invariant_reachable:
  assumes "run fadd calls (empty_store, r0) = Some (s, r)"
    and "r0 = zero_Registry \<or> r0 = NewRegistry capacity"
  shows "(\<forall>n m1 m2. Get r n = (m1, True) \<longrightarrow> Get r n = (m2, True) \<longrightarrow> m1 = m2) \<and>
    (\<forall>n1 n2 m1 m2. Get r n1 = (m1, True) \<longrightarrow> Get r n2 = (m2, True) \<longrightarrow>
       Metric_Name s m1 = Metric_Name s m2 \<longrightarrow> n1 = n2) \<and>
    (\<forall>n metric. Get r n = (metric, True) \<longrightarrow>
       metric \<noteq> NilMetric \<and> metric \<noteq> CounterPtr None \<and> metric \<noteq> GaugePtr None \<and>
       Metric_Name s metric = Some n)"
proof -
  from assms(2) have "registry_inv empty_store r0"
    by (auto simp: registry_inv_zero registry_inv_New)
  from run_invariant [OF store_wf_empty this assms(1)] have inv: "registry_inv s r" ..
  have one: "m1 = m2" if "Get r n = (m1, True)" "Get r n = (m2, True)" for n m1 m2
    using that by simp
  have names: "n1 = n2"
    if "Get r n1 = (m1, True)" "Get r n2 = (m2, True)" "Metric_Name s m1 = Metric_Name s m2"
    for n1 n2 m1 m2
    using inv that by (simp add: registry_inv_def)
  have live: "metric \<noteq> NilMetric \<and> metric \<noteq> CounterPtr None \<and> metric \<noteq> GaugePtr None \<and>
       Metric_Name s metric = Some n"
    if "Get r n = (metric, True)" for n metric
  proof -
    from inv that have "Metric_Name s metric = Some n" by (simp add: registry_inv_def)
    with Metric_Name_live [OF this] show ?thesis by simp
  qed
  from one names live show ?thesis by blast
qed

text \<open>
  C8 on a run that creates and registers a counter, increments it and tries to
  remove an absent name.
\<close>

theorem registry_invariant_reachable_witness:
  "run (+) [Call_NewCounter ''requests'', Call_Register (CounterPtr (Some 0)),
            Call_Counter_Inc (Some 0), Call_Unregister ''absent'']
      (empty_store, zero_Registry)
     = Some (\<lparr>counters = [0 \<mapsto> \<lparr>Counter.name = ''requests'', value = 1\<rparr>], gauges = Map.empty,
               snapshots = Map.empty, next_addr = 1\<rparr>,
             \<lparr>metrics = Some (fmupd ''requests'' (CounterPtr (Some 0)) fmempty)\<rparr>) \<and>
   Get \<lparr>metrics = Some (fmupd ''requests'' (CounterPtr (Some 0)) fmempty)\<rparr> ''requests''
     = (CounterPtr (Some 0), True) \<and>
   Metric_Name \<lparr>counters = [0 \<mapsto> \<lparr>Counter.name = ''requests'', value = 1\<rparr>], gauges = Map.empty,
               snapshots = Map.empty, next_addr = 1\<rparr> (CounterPtr (Some 0)) = Some ''requests''"
  using registry_invariant_reachable [of "(+)"
      "[Call_NewCounter ''requests'', Call_Register (CounterPtr (Some 0)),
        Call_Counter_Inc (Some 0), Call_Unregister ''absent'']"
      zero_Registry
      "\<lparr>counters = [0 \<mapsto> \<lparr>Counter.name = ''requests'', value = 1\<rparr>], gauges = Map.empty,
               snapshots = Map.empty, next_addr = 1\<rparr>"
      "\<lparr>metrics = Some (fmupd ''requests'' (CounterPtr (Some 0)) fmempty)\<rparr>" 0]
  by (simp add: alloc_Counter_def empty_store_def NewCounter_def zero_Registry_def Register_def
      deref_Counter_def Counter_Name_def update_Counter_def Counter_Inc_def Unregister_def Get_def)

subsection \<open>Snapshot\<close>

lemma Snapshot_range_lookup:
  "Snapshot_range s es acc = Some snap \<Longrightarrow> distinct (map fst es) \<Longrightarrow>
   fmlookup snap k = (case map_of es k of None \<Rightarrow> fmlookup acc k | Some metric \<Rightarrow> Metric_Value s metric)"
proof (induction es arbitrary: acc)
  case Nil
  then show ?case by simp
next
  case (Cons e es)
  obtain n metric where e: "e = (n, metric)" by (cases e)
  from Cons.prems(1) obtain v where v: "Metric_Value s metric = Some v"
    and rest: "Snapshot_range s es (fmupd n v acc) = Some snap"
    by (auto simp: e split: option.splits)
  from Cons.prems(2) have d: "distinct (map fst es)" and fresh: "map_of es n = None"
    by (auto simp: e map_of_eq_None_iff)
  from Cons.IH [OF rest d] show ?case
    using v fresh by (auto simp: e split: option.splits)
qed

lemma Snapshot_range_total:
  "(\<And>n metric. (n, metric) \<in> set es \<Longrightarrow> Metric_Value s metric \<noteq> None) \<Longrightarrow>
   \<exists>snap. Snapshot_range s es acc = Some snap"
proof (induction es arbitrary: acc)
  case Nil
  then show ?case by simp
next
  case (Cons e es)
  obtain n metric where e: "e = (n, metric)" by (cases e)
  with Cons.prems [of n metric] obtain v where v: "Metric_Value s metric = Some v" by auto
  from Cons.IH [of "fmupd n v acc"] Cons.prems show ?case
    by (auto simp: e v)
qed

lemma Snapshot_range_panics:
  "Snapshot_range s es acc = None \<longleftrightarrow> (\<exists>n metric. (n, metric) \<in> set es \<and> Metric_Value s metric = None)"
proof (induction es arbitrary: acc)
  case Nil
  then show ?case by simp
next
  case (Cons e es)
  obtain n metric where e: "e = (n, metric)" by (cases e)
  show ?case using Cons.IH by (auto simp: e split: option.splits)
qed

text \<open>
  The order in which \<open>range\<close> visits the entries does not matter: two enumerations of
  the same map give the same result.
\<close>

lemma Snapshot_range_any_order:
  assumes "distinct (map fst es)" "distinct (map fst es')" "map_of es = map_of es'"
  shows "Snapshot_range s es acc = Snapshot_range s es' acc"
proof -
  have sets: "set es = set es'"
    using assms by (metis map_of_inject_set)
  show ?thesis
  proof (cases "Snapshot_range s es acc")
    case None
    then have "Snapshot_range s es' acc = None"
      by (simp add: Snapshot_range_panics sets)
    with None show ?thesis by simp
  next
    case (Some snap)
    then have "Snapshot_range s es' acc \<noteq> None"
      using Snapshot_range_panics [of s es acc] by (simp add: Snapshot_range_panics sets)
    then obtain snap' where s': "Snapshot_range s es' acc = Some snap'" by auto
    have "fmlookup snap k = fmlookup snap' k" for k
      using Snapshot_range_lookup [OF Some assms(1), of k] Snapshot_range_lookup [OF s' assms(2), of k]
      by (simp add: assms(3))
    then have "snap = snap'" by (rule fmap_ext)
    with Some s' show ?thesis by simp
  qed
qed

lemma sorted_list_of_fset_distinct: "distinct (sorted_list_of_fset S)"
  by (simp add: sorted_list_of_fset.rep_eq)

lemma sorted_list_of_fmap_distinct: "distinct (map fst (sorted_list_of_fmap mp))"
  by (simp add: sorted_list_of_fmap_def comp_def sorted_list_of_fset_distinct)

lemma sorted_list_of_fmap_set:
  "(n, metric) \<in> set (sorted_list_of_fmap mp) \<longleftrightarrow> fmlookup mp n = Some metric"
  using map_of_sorted_list [of mp] sorted_list_of_fmap_distinct [of mp]
  by (metis map_of_eq_Some_iff)

lemma Metric_Name_Value: "Metric_Name s metric = Some n \<Longrightarrow> Metric_Value s metric \<noteq> None"
  by (cases metric) auto

text \<open>
  No call of the package writes into a snapshot map that already exists.
\<close>

lemma exec_snapshots_frame:
  assumes "exec fadd c (s, r) = Some (s', r')" and "a < next_addr s"
  shows "snapshots s' a = snapshots s a \<and> next_addr s \<le> next_addr s'"
proof (cases c)
  case Call_Snapshot
  with assms(1) have "map_option (\<lambda>(s', p). (s', r)) (Snapshot s r) = Some (s', r')"
    by (simp only: exec.simps)
  then obtain p where "Snapshot s r = Some (s', p)"
    by (cases "Snapshot s r") auto
  from Snapshot_store [OF this] obtain m where "alloc_snapshot s m = (s', p)" ..
  with assms(2) show ?thesis by (auto simp: alloc_snapshot_def)
next
  case (Call_Register metric)
  with assms show ?thesis by auto
qed (use assms in \<open>auto simp: alloc_Counter_def alloc_Gauge_def dest: update_Counter_frame update_Gauge_frame\<close>)

lemma run_snapshots_frame:
  "run fadd calls (s, r) = Some (s', r') \<Longrightarrow> a < next_addr s \<Longrightarrow> snapshots s' a = snapshots s a"
proof (induction calls arbitrary: s r)
  case Nil
  then show ?case by simp
next
  case (Cons c calls)
  from Cons.prems(1) obtain s1 r1 where
    step: "exec fadd c (s, r) = Some (s1, r1)" and rest: "run fadd calls (s1, r1) = Some (s', r')"
    by (auto split: option.splits)
  from exec_snapshots_frame [OF step Cons.prems(2)]
  have "snapshots s1 a = snapshots s a" "a < next_addr s1"
    using Cons.prems(2) by auto
  with Cons.IH [OF rest] show ?case by simp
qed

lemma Snapshot_of_entries:
  assumes "registry_inv s r"
  shows "\<exists>snap. Snapshot s r = Some (alloc_snapshot s snap) \<and>
           (\<forall>n. fmlookup snap n = (if snd (Get r n) then Metric_Value s (fst (Get r n)) else None)) \<and>
           fcard (fmdom snap) = Len r"
proof (cases "metrics r")
  case None
  then show ?thesis
    by (intro exI [of _ fmempty]) (simp add: Snapshot_def Get_def Len_def)
next
  case (Some mp)
  have live: "Metric_Value s metric \<noteq> None" if "(n, metric) \<in> set (sorted_list_of_fmap mp)" for n metric
  proof -
    from that have "Get r n = (metric, True)"
      by (simp add: sorted_list_of_fmap_set Get_eq_found Some)
    with assms have "Metric_Name s metric = Some n" by (simp add: registry_inv_def)
    then show ?thesis by (rule Metric_Name_Value)
  qed
  have "\<exists>snap. Snapshot_range s (sorted_list_of_fmap mp) fmempty = Some snap"
    by (rule Snapshot_range_total) (rule live)
  then obtain snap where snap: "Snapshot_range s (sorted_list_of_fmap mp) fmempty = Some snap" ..
  have look: "fmlookup snap n = (case fmlookup mp n of None \<Rightarrow> None | Some metric \<Rightarrow> Metric_Value s metric)"
    for n
    using Snapshot_range_lookup [OF snap sorted_list_of_fmap_distinct, of n]
    by (simp split: option.splits)
  have l1: "fmlookup snap n = (if snd (Get r n) then Metric_Value s (fst (Get r n)) else None)" for n
    by (simp add: look Get_def Some split: option.splits)
  have "fmlookup snap n \<noteq> None \<longleftrightarrow> fmlookup mp n \<noteq> None" for n
  proof (cases "fmlookup mp n")
    case None
    then show ?thesis by (simp add: look)
  next
    case (Some metric)
    then have "(n, metric) \<in> set (sorted_list_of_fmap mp)" by (simp add: sorted_list_of_fmap_set)
    from live [OF this] Some show ?thesis by (simp add: look)
  qed
  then have "fmdom snap = fmdom mp"
    by (auto simp: fmlookup_dom_iff intro!: fset_eqI)
  then have "fcard (fmdom snap) = Len r" by (simp add: Len_def Some)
  with snap l1 show ?thesis by (auto simp: Snapshot_def Some)
qed

text \<open>
  C2. On a registry whose entries are live instruments, \<open>Snapshot()\<close> returns a map
  at an address not in use before, leaving every other object as it was. The map has
  as many entries as \<open>Len()\<close>, one for each name present, with the \<open>Value()\<close> the
  instrument had at the call. Whatever calls follow (updates of instruments,
  \<open>Register\<close>, \<open>Unregister\<close>, \<open>Clear\<close>, further snapshots, on any registry), the map
  returned stays as it was.
\<close>

theorem Snapshot_complete_and_isolated:
  assumes "store_wf s" and "registry_inv s r"
  shows "\<exists>s' a snap. Snapshot s r = Some (s', Some a) \<and>
     snapshots s a = None \<and> snapshots s' a = Some snap \<and>
     counters s' = counters s \<and> gauges s' = gauges s \<and>
     (\<forall>b. b \<noteq> a \<longrightarrow> snapshots s' b = snapshots s b) \<and>
     fcard (fmdom snap) = Len r \<and>
     (\<forall>n. fmlookup snap n = (if snd (Get r n) then Metric_Value s (fst (Get r n)) else None)) \<and>
     (\<forall>n. snd (Get r n) \<longrightarrow> fmlookup snap n \<noteq> None) \<and>
     (\<forall>fadd calls s'' r' r''. run fadd calls (s', r') = Some (s'', r'') \<longrightarrow> snapshots s'' a = Some snap)"
proof -
  from Snapshot_of_entries [OF assms(2)] obtain snap where
    sn: "Snapshot s r = Some (alloc_snapshot s snap)" and
    look: "\<And>n. fmlookup snap n = (if snd (Get r n) then Metric_Value s (fst (Get r n)) else None)" and
    len: "fcard (fmdom snap) = Len r"
    by blast
  define a where "a = next_addr s"
  define s' where "s' = fst (alloc_snapshot s snap)"
  have al: "alloc_snapshot s snap = (s', Some a)"
    by (simp add: s'_def a_def alloc_snapshot_def)
  have fresh: "snapshots s a = None"
    using assms(1) by (auto simp: store_wf_def a_def)
  have new: "snapshots s' a = Some snap" "counters s' = counters s" "gauges s' = gauges s"
    "\<And>b. b \<noteq> a \<Longrightarrow> snapshots s' b = snapshots s b" "a < next_addr s'"
    by (simp_all add: s'_def a_def alloc_snapshot_def)
  have live: "fmlookup snap n \<noteq> None" if f: "snd (Get r n)" for n
  proof -
    obtain metric where "Get r n = (metric, True)" using f by (cases "Get r n") auto
    with assms(2) have "Metric_Name s metric = Some n" "fst (Get r n) = metric"
      by (simp_all add: registry_inv_def)
    with f Metric_Name_Value [of s metric n] show ?thesis by (simp add: look)
  qed
  have later: "snapshots s'' a = Some snap"
    if "run fadd calls (s', r') = Some (s'', r'')" for fadd calls s'' r' r''
    using run_snapshots_frame [OF that new(5)] new(1) by simp
  from sn al have call: "Snapshot s r = Some (s', Some a)" by simp
  from call fresh new(1-4) len look live later show ?thesis by blast
qed

text \<open>
  C2 on a registry holding a counter \<open>test\<close> with the value 100.
\<close>

theorem Snapshot_complete_and_isolated_witness:
  "store_wf \<lparr>counters = [0 \<mapsto> \<lparr>Counter.name = ''test'', value = 100\<rparr>], gauges = Map.empty,
             snapshots = Map.empty, next_addr = 1\<rparr> \<and>
   registry_inv \<lparr>counters = [0 \<mapsto> \<lparr>Counter.name = ''test'', value = 100\<rparr>], gauges = Map.empty,
             snapshots = Map.empty, next_addr = 1\<rparr>
     \<lparr>metrics = Some (fmupd ''test'' (CounterPtr (Some 0)) fmempty)\<rparr> \<and>
   (\<exists>s' a snap.
      Snapshot \<lparr>counters = [0 \<mapsto> \<lparr>Counter.name = ''test'', value = 100\<rparr>], gauges = Map.empty,
             snapshots = Map.empty, next_addr = 1\<rparr>
        \<lparr>metrics = Some (fmupd ''test'' (CounterPtr (Some 0)) fmempty)\<rparr> = Some (s', Some a) \<and>
      snapshots s' a = Some snap \<and>
      fcard (fmdom snap) = 1 \<and>
      fmlookup snap ''test'' = Some (Int64 100))"
proof -
  let ?s = "\<lparr>counters = [0 \<mapsto> \<lparr>Counter.name = ''test'', value = 100\<rparr>], gauges = Map.empty,
             snapshots = Map.empty, next_addr = 1\<rparr>"
  let ?r = "\<lparr>metrics = Some (fmupd ''test'' (CounterPtr (Some 0)) fmempty)\<rparr>"
  have wf: "store_wf ?s"
    by (simp add: store_wf_def)
  have inv: "registry_inv ?s ?r"
    by (simp add: registry_inv_def Get_def deref_Counter_def Counter_Name_def)
  have g: "Get ?r ''test'' = (CounterPtr (Some 0), True)" "Len ?r = 1"
    "Metric_Value ?s (CounterPtr (Some 0)) = Some (Int64 100)"
    by (simp_all add: Get_def Len_def deref_Counter_def Counter_Value_def fcard_finsert_if)
  from Snapshot_complete_and_isolated [OF wf inv] obtain s' a snap where
    "Snapshot ?s ?r = Some (s', Some a)" "snapshots s' a = Some snap" "fcard (fmdom snap) = Len ?r"
    "\<forall>n. fmlookup snap n = (if snd (Get ?r n) then Metric_Value ?s (fst (Get ?r n)) else None)"
    by blast
  then have "Snapshot ?s ?r = Some (s', Some a) \<and> snapshots s' a = Some snap \<and>
      fcard (fmdom snap) = 1 \<and> fmlookup snap ''test'' = Some (Int64 100)"
    using g by simp
  with wf inv show ?thesis by blast
qed

subsection \<open>A test of the package as a run\<close>

lemma Snapshot_fmap_of_list:
  assumes "distinct (map fst es)" and "metrics r = Some (fmap_of_list es)"
  shows "Snapshot s r =
    (case Snapshot_range s es fmempty of
       None \<Rightarrow> None
     | Some snapshot \<Rightarrow> Some (alloc_snapshot s snapshot))"
proof -
  have "map_of (sorted_list_of_fmap (fmap_of_list es)) = map_of es"
    by (simp add: fmlookup_of_list)
  from Snapshot_range_any_order [OF sorted_list_of_fmap_distinct assms(1) this]
  show ?thesis by (simp add: Snapshot_def assms(2))
qed

lemma Snapshot_single:
  "Snapshot s \<lparr>metrics = Some (fmupd n metric fmempty)\<rparr> =
    (case Metric_Value s metric of
       None \<Rightarrow> None
     | Some v \<Rightarrow> Some (alloc_snapshot s (fmupd n v fmempty)))"
  using Snapshot_fmap_of_list [of "[(n, metric)]" "\<lparr>metrics = Some (fmupd n metric fmempty)\<rparr>" s]
  by (simp split: option.splits)

text \<open>
  The run of \<open>TestRegistry_BoundaryProtection\<close>: the first snapshot keeps 100 after
  \<open>Add(50)\<close>, the second one reads 150.
\<close>

lemma boundary_protection_run:
  "\<exists>s r. run fadd [Call_NewCounter ''test'', Call_Counter_Add (Some 0) 100,
              Call_Register (CounterPtr (Some 0)), Call_Snapshot,
              Call_Counter_Add (Some 0) 50, Call_Snapshot] (empty_store, NewRegistry 0) = Some (s, r) \<and>
     snapshots s 1 = Some (fmupd ''test'' (Int64 100) fmempty) \<and>
     snapshots s 2 = Some (fmupd ''test'' (Int64 150) fmempty)"
  by (simp add: alloc_Counter_def empty_store_def NewCounter_def NewRegistry_def Register_def
      deref_Counter_def Counter_Name_def update_Counter_def Counter_Add_def word_sless_alt
      Snapshot_single Counter_Value_def alloc_snapshot_def)

end
